theory Spec2Isabelle
  imports Main "HOL-Library.Word"
begin

unbundle bit_operations_syntax

section \<open>dbwrapper.h: typed access layer over an ordered key-value engine\<close>

text \<open>
  The header \<^verbatim>\<open>src/dbwrapper.h\<close> defines three classes, \<^verbatim>\<open>CDBBatch\<close>,
  \<^verbatim>\<open>CDBIterator\<close> and \<^verbatim>\<open>CDBWrapper\<close>, whose member templates are embedded
  below. The member templates are generic in the key type \<open>K\<close> and the value type \<open>V\<close>;
  the serialization \<^verbatim>\<open>stream << x\<close> and deserialization \<^verbatim>\<open>stream >> x\<close> of
  these types live in \<^verbatim>\<open>serialize.h\<close>, so every embedded member takes the codec as
  parameters:
  \<^item> \<open>encK :: 'k \<Rightarrow> bytes\<close> and \<open>encV :: 'v \<Rightarrow> bytes\<close> are the bytes that \<^verbatim>\<open><<\<close>
    appends to a stream;
  \<^item> \<open>decV :: bytes \<Rightarrow> 'v option\<close> is \<^verbatim>\<open>>>\<close> on a stream holding the given bytes,
    with \<open>None\<close> when it throws a \<^verbatim>\<open>std::exception\<close>.
  A \<^verbatim>\<open>CDataStream\<close> is the list of its bytes, a \<^verbatim>\<open>leveldb::Slice\<close> built from
  \<^verbatim>\<open>data()\<close> and \<^verbatim>\<open>size()\<close> of a stream is the same list. The calls to
  \<^verbatim>\<open>reserve\<close> only set the capacity of a stream and are left out.
\<close>

type_synonym bytes = "8 word list"

subsection \<open>The storage engine\<close>

text \<open>
  Modelled from the spec: the storage engine (LevelDB) is an external collaborator; the
  spec gives its contract as an ordered byte-key space with
  \<open>get(key) -> bytes | not_found\<close> and an atomic multi-entry
  \<open>commit(entries, durable) -> ok | error\<close> whose entries are apply-ordered (the last
  write for a key wins). The engine state is the table of stored bytes together with
  the failure, if any, that the engine reports for every request (an I/O error or a
  corruption). A status is ok, not-found or such a failure.
\<close>

datatype Failure = Corruption | IOError

datatype Status = OK | NotFound | Failed Failure

datatype BatchEntry = Put bytes bytes | Delete bytes

record leveldb_DB =
  table :: "bytes \<rightharpoonup> bytes"
  fault :: "Failure option"

definition ldb_Get :: "leveldb_DB \<Rightarrow> bytes \<Rightarrow> Status \<times> bytes" where
  "ldb_Get db slKey =
     (case fault db of
        Some f \<Rightarrow> (Failed f, [])
      | None \<Rightarrow>
          (case table db slKey of
             None \<Rightarrow> (NotFound, [])
           | Some strValue \<Rightarrow> (OK, strValue)))"

fun apply_entry :: "(bytes \<rightharpoonup> bytes) \<Rightarrow> BatchEntry \<Rightarrow> (bytes \<rightharpoonup> bytes)" where
  "apply_entry t (Put slKey slValue) = t(slKey \<mapsto> slValue)"
| "apply_entry t (Delete slKey) = t(slKey := None)"

definition ldb_Write :: "leveldb_DB \<Rightarrow> bool \<Rightarrow> BatchEntry list \<Rightarrow> Status \<times> leveldb_DB" where
  "ldb_Write db sync entries =
     (case fault db of
        Some f \<Rightarrow> (Failed f, db)
      | None \<Rightarrow> (OK, db\<lparr>table := foldl apply_entry (table db) entries\<rparr>))"

subsection \<open>Errors\<close>

text \<open>
  \<^verbatim>\<open>class dbwrapper_error : public std::runtime_error\<close>. The exception carries a message;
  the model keeps the engine status that caused it.
\<close>

datatype dbwrapper_error = dbwrapper_error Status

text \<open>
  Modelled from the spec: \<^verbatim>\<open>dbwrapper_private::HandleError\<close> is declared in the header
  (``Handle database error by throwing dbwrapper_error exception'') and defined outside
  it. The spec says that an engine failure other than not-found is surfaced to the
  caller; a status that is ok is no error.
\<close>

definition HandleError :: "Status \<Rightarrow> dbwrapper_error + unit" where
  "HandleError status = (if status = OK then Inr () else Inl (dbwrapper_error status))"

subsection \<open>Obfuscation\<close>

text \<open>
  Modelled from the spec: \<^verbatim>\<open>CDataStream::Xor\<close> (in \<^verbatim>\<open>streams.h\<close>) is the spec's
  \<open>apply(bytes, key)\<close>: ``bytewise XOR, cyclically repeating the key if the key is
  shorter than the payload''. \<open>Xor_from j key vch\<close> masks \<open>vch\<close> starting at key
  position \<open>j\<close> and returns to position 0 at the end of the key. A key of length zero
  has no byte to repeat and leaves the payload as it is.
\<close>

fun Xor_from :: "nat \<Rightarrow> bytes \<Rightarrow> bytes \<Rightarrow> bytes" where
  "Xor_from j key [] = []"
| "Xor_from j key (b # vch) =
     (b XOR key ! j) # Xor_from (if Suc j = length key then 0 else Suc j) key vch"

definition Xor :: "bytes \<Rightarrow> bytes \<Rightarrow> bytes" where
  "Xor vch key = (if key = [] then vch else Xor_from 0 key vch)"

subsection \<open>CDBWrapper: the fields\<close>

text \<open>
  Of the fields of \<^verbatim>\<open>CDBWrapper\<close> the members below use \<^verbatim>\<open>pdb\<close>, the engine, and
  \<^verbatim>\<open>obfuscate_key\<close>. The option sets (\<^verbatim>\<open>readoptions\<close>, \<^verbatim>\<open>writeoptions\<close>,
  \<^verbatim>\<open>syncoptions\<close>) do not change what is stored or returned.
\<close>

record CDBWrapper =
  pdb :: leveldb_DB
  obfuscate_key :: bytes

text \<open>
  Modelled from the spec: \<^verbatim>\<open>dbwrapper_private::GetObfuscateKey\<close> is a friend of
  \<^verbatim>\<open>CDBWrapper\<close>, declared in the header and defined outside it; the spec describes
  it as the accessor through which batch and iterator read the store's obfuscation key.
\<close>

definition GetObfuscateKey :: "CDBWrapper \<Rightarrow> bytes" where
  "GetObfuscateKey w = obfuscate_key w"

subsection \<open>CDBBatch\<close>

text \<open>
  \<^verbatim>\<open>parent\<close> is a const reference to the store; the batch reads only the obfuscation
  key through it. \<^verbatim>\<open>batch\<close> is the engine's write batch, the list of its entries in
  the order they were appended. \<^verbatim>\<open>size_estimate\<close> is a \<^verbatim>\<open>size_t\<close>: a natural
  number with the 64-bit wrap-around of \<^verbatim>\<open>+=\<close> written out. The sizes of slices are
  the lengths of byte sequences held in memory.
\<close>

record CDBBatch =
  parent :: CDBWrapper
  batch :: "BatchEntry list"
  ssKey :: bytes
  ssValue :: bytes
  size_estimate :: nat

definition CDBBatch_ctor :: "CDBWrapper \<Rightarrow> CDBBatch" where
  "CDBBatch_ctor w_parent =
     \<lparr>parent = w_parent, batch = [], ssKey = [], ssValue = [], size_estimate = 0\<rparr>"

definition Clear :: "CDBBatch \<Rightarrow> CDBBatch" where
  "Clear b = b\<lparr>batch := [], size_estimate := 0\<rparr>"

definition CDBBatch_Write :: "('k \<Rightarrow> bytes) \<Rightarrow> ('v \<Rightarrow> bytes) \<Rightarrow> CDBBatch \<Rightarrow> 'k \<Rightarrow> 'v \<Rightarrow> CDBBatch" where
  "CDBBatch_Write encK encV b key val =
     (let ssKey1 = ssKey b @ encK key;
          slKey = ssKey1;
          ssValue1 = ssValue b @ encV val;
          ssValue2 = Xor ssValue1 (GetObfuscateKey (parent b));
          slValue = ssValue2
      in b\<lparr>batch := batch b @ [Put slKey slValue],
            size_estimate :=
              (size_estimate b + (3 + (if length slKey > 127 then 1 else 0) + length slKey
                 + (if length slValue > 127 then 1 else 0) + length slValue)) mod 2 ^ 64,
            ssKey := [],
            ssValue := []\<rparr>)"

definition CDBBatch_Erase :: "('k \<Rightarrow> bytes) \<Rightarrow> CDBBatch \<Rightarrow> 'k \<Rightarrow> CDBBatch" where
  "CDBBatch_Erase encK b key =
     (let ssKey1 = ssKey b @ encK key;
          slKey = ssKey1
      in b\<lparr>batch := batch b @ [Delete slKey],
            size_estimate :=
              (size_estimate b + (2 + (if length slKey > 127 then 1 else 0) + length slKey))
                mod 2 ^ 64,
            ssKey := []\<rparr>)"

definition SizeEstimate :: "CDBBatch \<Rightarrow> nat" where
  "SizeEstimate b = size_estimate b"

text \<open>
  The streams \<^verbatim>\<open>ssKey\<close> and \<^verbatim>\<open>ssValue\<close> are private, so a client reaches a batch
  only from the constructor by calls of the public members. \<open>calls\<close> runs a sequence of
  calls each of which returns; a call that a throwing serialization cuts short is
  \<open>CDBBatch_Write_ser\<close> and \<open>CDBBatch_Erase_ser\<close> below.
\<close>

datatype ('k, 'v) batch_call = Call_Write 'k 'v | Call_Erase 'k | Call_Clear

fun call :: "('k \<Rightarrow> bytes) \<Rightarrow> ('v \<Rightarrow> bytes) \<Rightarrow> CDBBatch \<Rightarrow> ('k, 'v) batch_call \<Rightarrow> CDBBatch" where
  "call encK encV b (Call_Write key val) = CDBBatch_Write encK encV b key val"
| "call encK encV b (Call_Erase key) = CDBBatch_Erase encK b key"
| "call encK encV b Call_Clear = Clear b"

primrec calls :: "('k \<Rightarrow> bytes) \<Rightarrow> ('v \<Rightarrow> bytes) \<Rightarrow> CDBBatch \<Rightarrow> ('k, 'v) batch_call list \<Rightarrow> CDBBatch" where
  "calls encK encV b [] = b"
| "calls encK encV b (c # cs) = calls encK encV (call encK encV b c) cs"

text \<open>The readings of \<^verbatim>\<open>SizeEstimate()\<close> before the first call and after each call.\<close>

primrec estimates :: "('k \<Rightarrow> bytes) \<Rightarrow> ('v \<Rightarrow> bytes) \<Rightarrow> CDBBatch \<Rightarrow> ('k, 'v) batch_call list \<Rightarrow> nat list" where
  "estimates encK encV b [] = [SizeEstimate b]"
| "estimates encK encV b (c # cs) = SizeEstimate b # estimates encK encV (call encK encV b c) cs"

text \<open>
  The bytes that an entry of the engine batch is counted with. The comments in
  \<^verbatim>\<open>CDBBatch::Write\<close> and \<^verbatim>\<open>CDBBatch::Erase\<close> give the engine's layout: one
  header byte, a varint for the key length (1 byte up to 127, 2 bytes up to 16383),
  the key and, for a put, a varint for the value length and the value.
\<close>

fun entry_estimate :: "BatchEntry \<Rightarrow> nat" where
  "entry_estimate (Put slKey slValue) =
     3 + (if length slKey > 127 then 1 else 0) + length slKey
       + (if length slValue > 127 then 1 else 0) + length slValue"
| "entry_estimate (Delete slKey) =
     2 + (if length slKey > 127 then 1 else 0) + length slKey"

definition batch_estimate :: "BatchEntry list \<Rightarrow> nat" where
  "batch_estimate entries = sum_list (map entry_estimate entries)"

text \<open>
  The spec's words for the size of the framing: \<open>framing_overhead(x)\<close> is 2 bytes if
  \<open>len(x) \<le> 127\<close>, else 3 bytes.
\<close>

definition framing_overhead :: "nat \<Rightarrow> nat" where
  "framing_overhead len = (if len \<le> 127 then 2 else 3)"

subsection \<open>CDBBatch: a serialization that throws\<close>

text \<open>
  \<^verbatim>\<open>ssKey << key\<close> and \<^verbatim>\<open>ssValue << value\<close> run the \<^verbatim>\<open>Serialize\<close> code of the types
  \<open>K\<close> and \<open>V\<close>, which may throw after it has appended some bytes to the stream. A
  serializer is then a function into \<open>ser_result\<close>: the bytes it appended, and whether
  it returned or threw. \<^verbatim>\<open>Write\<close> and \<^verbatim>\<open>Erase\<close> have no handler, so the exception
  leaves the member at that statement: the batch object, which the caller still holds,
  keeps what the statements before have done to it, and the \<^verbatim>\<open>clear()\<close> calls at
  the end of the member are not reached.
\<close>

datatype ser_result = Written bytes | Thrown bytes

datatype 'a completion = Returns 'a | Throws 'a

definition CDBBatch_Write_ser :: "('k \<Rightarrow> ser_result) \<Rightarrow> ('v \<Rightarrow> ser_result) \<Rightarrow> CDBBatch \<Rightarrow> 'k \<Rightarrow> 'v \<Rightarrow> CDBBatch completion" where
  "CDBBatch_Write_ser serK serV b key val =
     (case serK key of
        Thrown ks \<Rightarrow> Throws (b\<lparr>ssKey := ssKey b @ ks\<rparr>)
      | Written ks \<Rightarrow>
          (let ssKey1 = ssKey b @ ks;
               slKey = ssKey1
           in case serV val of
                Thrown vs \<Rightarrow> Throws (b\<lparr>ssKey := ssKey1, ssValue := ssValue b @ vs\<rparr>)
              | Written vs \<Rightarrow>
                  (let ssValue1 = ssValue b @ vs;
                       ssValue2 = Xor ssValue1 (GetObfuscateKey (parent b));
                       slValue = ssValue2
                   in Returns (b\<lparr>batch := batch b @ [Put slKey slValue],
                         size_estimate :=
                           (size_estimate b
                            + (3 + (if length slKey > 127 then 1 else 0) + length slKey
                               + (if length slValue > 127 then 1 else 0) + length slValue))
                             mod 2 ^ 64,
                         ssKey := [],
                         ssValue := []\<rparr>))))"

definition CDBBatch_Erase_ser :: "('k \<Rightarrow> ser_result) \<Rightarrow> CDBBatch \<Rightarrow> 'k \<Rightarrow> CDBBatch completion" where
  "CDBBatch_Erase_ser serK b key =
     (case serK key of
        Thrown ks \<Rightarrow> Throws (b\<lparr>ssKey := ssKey b @ ks\<rparr>)
      | Written ks \<Rightarrow>
          (let ssKey1 = ssKey b @ ks;
               slKey = ssKey1
           in Returns (b\<lparr>batch := batch b @ [Delete slKey],
                 size_estimate :=
                   (size_estimate b + (2 + (if length slKey > 127 then 1 else 0) + length slKey))
                     mod 2 ^ 64,
                 ssKey := []\<rparr>)))"

subsection \<open>CDBIterator\<close>

text \<open>
  \<^verbatim>\<open>piter\<close> is the engine's iterator, of a type \<open>'it\<close> that the layer does not look
  into; the engine's \<^verbatim>\<open>Seek\<close> and \<^verbatim>\<open>value\<close> are parameters. The back-reference to
  the store is the field \<^verbatim>\<open>parent\<close> of the class, named \<open>iter_parent\<close> here because
  the batch has a field of that name.
\<close>

record 'it CDBIterator =
  iter_parent :: CDBWrapper
  piter :: 'it

definition Seek :: "('k \<Rightarrow> bytes) \<Rightarrow> ('it \<Rightarrow> bytes \<Rightarrow> 'it) \<Rightarrow> 'it CDBIterator \<Rightarrow> 'k \<Rightarrow> 'it CDBIterator" where
  "Seek encK ldb_Seek it key =
     (let ssKey0 = [] @ encK key;
          slKey = ssKey0
      in it\<lparr>piter := ldb_Seek (piter it) slKey\<rparr>)"

definition GetValue :: "(bytes \<Rightarrow> 'v option) \<Rightarrow> ('it \<Rightarrow> bytes) \<Rightarrow> 'it CDBIterator \<Rightarrow> 'v option" where
  "GetValue decV ldb_value it =
     (let slValue = ldb_value (piter it);
          ssValue0 = Xor slValue (GetObfuscateKey (iter_parent it))
      in decV ssValue0)"

subsection \<open>CDBWrapper: the members\<close>

text \<open>
  \<^verbatim>\<open>Read\<close> returns \<^verbatim>\<open>true\<close> and sets its out-parameter (\<open>Inr (Some v)\<close>), returns
  \<^verbatim>\<open>false\<close> (\<open>Inr None\<close>), or leaves by the exception of \<^verbatim>\<open>HandleError\<close>
  (\<open>Inl e\<close>). A \<^verbatim>\<open>std::exception\<close> of the deserialization is caught inside
  \<^verbatim>\<open>Read\<close>, which then returns \<^verbatim>\<open>false\<close>; \<open>decoded\<close> is that guarded block.
\<close>

definition Read :: "('k \<Rightarrow> bytes) \<Rightarrow> (bytes \<Rightarrow> 'v option) \<Rightarrow> CDBWrapper \<Rightarrow> 'k \<Rightarrow> dbwrapper_error + 'v option" where
  "Read encK decV w key =
     (let ssKey0 = [] @ encK key;
          slKey = ssKey0;
          (status, strValue) = ldb_Get (pdb w) slKey;
          decoded = (let ssValue0 = Xor strValue (obfuscate_key w)
                     in case decV ssValue0 of
                          None \<Rightarrow> Inr None
                        | Some v \<Rightarrow> Inr (Some v))
      in if status \<noteq> OK then
           (if status = NotFound then Inr None
            else case HandleError status of
                   Inl e \<Rightarrow> Inl e
                 | Inr u \<Rightarrow> decoded)
         else decoded)"

definition Exists :: "('k \<Rightarrow> bytes) \<Rightarrow> CDBWrapper \<Rightarrow> 'k \<Rightarrow> dbwrapper_error + bool" where
  "Exists encK w key =
     (let ssKey0 = [] @ encK key;
          slKey = ssKey0;
          (status, strValue) = ldb_Get (pdb w) slKey
      in if status \<noteq> OK then
           (if status = NotFound then Inr False
            else case HandleError status of
                   Inl e \<Rightarrow> Inl e
                 | Inr u \<Rightarrow> Inr True)
         else Inr True)"

text \<open>
  Modelled from the spec: \<^verbatim>\<open>CDBWrapper::WriteBatch\<close> is declared in the header and
  defined outside it. It is the spec's \<open>commit(batch, durable)\<close>: it applies all
  entries of the batch to the engine atomically, does not clear the batch, and surfaces
  an engine failure as an error. On an error the store is as before.
\<close>

definition WriteBatch :: "CDBWrapper \<Rightarrow> CDBBatch \<Rightarrow> bool \<Rightarrow> dbwrapper_error + bool \<times> CDBWrapper" where
  "WriteBatch w b fSync =
     (case ldb_Write (pdb w) fSync (batch b) of
        (status, db) \<Rightarrow>
          (case HandleError status of
             Inl e \<Rightarrow> Inl e
           | Inr u \<Rightarrow> Inr (True, w\<lparr>pdb := db\<rparr>)))"

definition CDBWrapper_Write :: "('k \<Rightarrow> bytes) \<Rightarrow> ('v \<Rightarrow> bytes) \<Rightarrow> CDBWrapper \<Rightarrow> 'k \<Rightarrow> 'v \<Rightarrow> bool \<Rightarrow> dbwrapper_error + bool \<times> CDBWrapper" where
  "CDBWrapper_Write encK encV w key val fSync =
     (let batch0 = CDBBatch_ctor w;
          batch1 = CDBBatch_Write encK encV batch0 key val
      in WriteBatch w batch1 fSync)"

definition CDBWrapper_Erase :: "('k \<Rightarrow> bytes) \<Rightarrow> CDBWrapper \<Rightarrow> 'k \<Rightarrow> bool \<Rightarrow> dbwrapper_error + bool \<times> CDBWrapper" where
  "CDBWrapper_Erase encK w key fSync =
     (let batch0 = CDBBatch_ctor w;
          batch1 = CDBBatch_Erase encK batch0 key
      in WriteBatch w batch1 fSync)"

text \<open>
  \<^verbatim>\<open>EstimateSize\<close> and \<^verbatim>\<open>CompactRange\<close> hand a range of two slices to the engine.
  What the engine answers is not fixed by this layer: its \<^verbatim>\<open>GetApproximateSizes\<close> and
  \<^verbatim>\<open>CompactRange\<close> are parameters.
\<close>

definition EstimateSize :: "('k \<Rightarrow> bytes) \<Rightarrow> (leveldb_DB \<Rightarrow> bytes \<times> bytes \<Rightarrow> nat) \<Rightarrow> CDBWrapper \<Rightarrow> 'k \<Rightarrow> 'k \<Rightarrow> nat" where
  "EstimateSize encK ldb_GetApproximateSizes w key_begin key_end =
     (let ssKey1 = [] @ encK key_begin;
          ssKey2 = [] @ encK key_end;
          slKey1 = ssKey1;
          slKey2 = ssKey2;
          range = (slKey1, slKey2)
      in ldb_GetApproximateSizes (pdb w) range)"

definition CompactRange :: "('k \<Rightarrow> bytes) \<Rightarrow> (leveldb_DB \<Rightarrow> bytes \<Rightarrow> bytes \<Rightarrow> leveldb_DB) \<Rightarrow> CDBWrapper \<Rightarrow> 'k \<Rightarrow> 'k \<Rightarrow> CDBWrapper" where
  "CompactRange encK ldb_CompactRange w key_begin key_end =
     (let ssKey1 = [] @ encK key_begin;
          ssKey2 = [] @ encK key_end;
          slKey1 = ssKey1;
          slKey2 = ssKey2
      in w\<lparr>pdb := ldb_CompactRange (pdb w) slKey1 slKey2\<rparr>)"

subsection \<open>A codec and a store for concrete runs\<close>

text \<open>
  The serialization of a single byte (\<^verbatim>\<open>uint8_t\<close>): one byte is written; reading
  takes the first byte of the stream and throws at the end of the data.
\<close>

definition ser_uint8 :: "8 word \<Rightarrow> bytes" where
  "ser_uint8 x = [x]"

definition unser_uint8 :: "bytes \<Rightarrow> 8 word option" where
  "unser_uint8 vch = (case vch of [] \<Rightarrow> None | x # rest \<Rightarrow> Some x)"

definition empty_store :: CDBWrapper where
  "empty_store = \<lparr>pdb = \<lparr>table = Map.empty, fault = None\<rparr>, obfuscate_key = [90, 195]\<rparr>"

text \<open>
  The same serialization as a \<open>ser_result\<close>, and the serialization of a type that
  writes one byte and then throws.
\<close>

definition ser_uint8_returns :: "8 word \<Rightarrow> ser_result" where
  "ser_uint8_returns x = Written (ser_uint8 x)"

definition ser_byte_then_throw :: "8 word \<Rightarrow> ser_result" where
  "ser_byte_then_throw x = Thrown [x]"

text \<open>A store whose engine holds the empty byte sequence under the key \<open>[7]\<close>.\<close>

definition corrupt_store :: CDBWrapper where
  "corrupt_store = \<lparr>pdb = \<lparr>table = [[7] \<mapsto> []], fault = None\<rparr>, obfuscate_key = [90, 195]\<rparr>"

section \<open>Properties\<close>

subsection \<open>Obfuscation\<close>

lemma Xor_from_twice: "Xor_from j key (Xor_from j key vch) = vch"
  by (induction vch arbitrary: j) (simp_all add: xor.assoc)

lemma Xor_twice: "Xor (Xor vch key) key = vch"
  by (simp add: Xor_def Xor_from_twice)

lemma length_Xor_from: "length (Xor_from j key vch) = length vch"
  by (induction vch arbitrary: j) simp_all

lemma length_Xor: "length (Xor vch key) = length vch"
  by (simp add: Xor_def length_Xor_from)

lemma Xor_from_zero_key: "j < n \<Longrightarrow> Xor_from j (replicate n 0) vch = vch"
proof (induction vch arbitrary: j)
  case Nil
  show ?case by simp
next
  case (Cons b vch)
  have next_pos: "(if Suc j = n then 0 else Suc j) < n"
    using Cons.prems by auto
  have "Xor_from (if Suc j = n then 0 else Suc j) (replicate n 0) vch = vch"
    using next_pos by (rule Cons.IH)
  then show ?case
    using Cons.prems by simp
qed

lemma Xor_zero_key: "Xor vch (replicate n 0) = vch"
proof (cases "n = 0")
  case True
  then show ?thesis by (simp add: Xor_def)
next
  case False
  then have "Xor_from 0 (replicate n 0) vch = vch"
    by (intro Xor_from_zero_key) simp
  then show ?thesis by (simp add: Xor_def)
qed

subsection \<open>Batches built from the constructor\<close>

text \<open>
  Every call of a member of \<^verbatim>\<open>CDBBatch\<close> that returns leaves the two scratch streams
  empty and keeps the parent, so this holds for every batch built from the constructor
  by calls that all returned.
\<close>

lemma ctor_streams: "ssKey (CDBBatch_ctor w) = [] \<and> ssValue (CDBBatch_ctor w) = []"
  by (simp add: CDBBatch_ctor_def)

lemma call_streams:
  "ssKey b = [] \<Longrightarrow> ssValue b = [] \<Longrightarrow>
   ssKey (call encK encV b c) = [] \<and> ssValue (call encK encV b c) = []"
  by (cases c) (simp_all add: CDBBatch_Write_def CDBBatch_Erase_def Clear_def Let_def)

lemma calls_streams:
  "ssKey b = [] \<Longrightarrow> ssValue b = [] \<Longrightarrow>
   ssKey (calls encK encV b cs) = [] \<and> ssValue (calls encK encV b cs) = []"
proof (induction cs arbitrary: b)
  case Nil
  then show ?case by simp
next
  case (Cons c cs)
  have "ssKey (call encK encV b c) = [] \<and> ssValue (call encK encV b c) = []"
    using Cons.prems by (rule call_streams)
  then show ?case
    using Cons.IH by simp
qed

lemma reachable_streams:
  "ssKey (calls encK encV (CDBBatch_ctor w) cs) = [] \<and>
   ssValue (calls encK encV (CDBBatch_ctor w) cs) = []"
  using ctor_streams [of w] by (simp add: calls_streams)

lemma call_parent: "parent (call encK encV b c) = parent b"
  by (cases c) (simp_all add: CDBBatch_Write_def CDBBatch_Erase_def Clear_def Let_def)

lemma calls_parent: "parent (calls encK encV b cs) = parent b"
  by (induction cs arbitrary: b) (simp_all add: call_parent)

lemma reachable_parent: "parent (calls encK encV (CDBBatch_ctor w) cs) = w"
  by (simp add: calls_parent CDBBatch_ctor_def)

text \<open>
  With serializers that return, the members with \<open>ser_result\<close> are the members above.
\<close>

lemma Write_ser_returns:
  "CDBBatch_Write_ser (\<lambda>k. Written (encK k)) (\<lambda>v. Written (encV v)) b key val =
     Returns (CDBBatch_Write encK encV b key val)"
  by (simp add: CDBBatch_Write_ser_def CDBBatch_Write_def Let_def)

lemma Erase_ser_returns:
  "CDBBatch_Erase_ser (\<lambda>k. Written (encK k)) b key = Returns (CDBBatch_Erase encK b key)"
  by (simp add: CDBBatch_Erase_ser_def CDBBatch_Erase_def Let_def)

subsection \<open>The size estimate\<close>

text \<open>
  The estimate of a batch built from the constructor is the sum of the estimates of the
  entries in the engine batch, modulo \<open>2 ^ 64\<close>. While that sum is below \<open>2 ^ 64\<close> the
  estimate is the sum itself, and every appended entry adds at least 2.
\<close>

lemma batch_estimate_snoc:
  "batch_estimate (entries @ [e]) = batch_estimate entries + entry_estimate e"
  by (simp add: batch_estimate_def)

lemma entry_estimate_pos: "2 \<le> entry_estimate e"
  by (cases e) simp_all

lemma Write_batch:
  "ssKey b = [] \<Longrightarrow> ssValue b = [] \<Longrightarrow>
   batch (CDBBatch_Write encK encV b key val) =
     batch b @ [Put (encK key) (Xor (encV val) (obfuscate_key (parent b)))]"
  by (simp add: CDBBatch_Write_def GetObfuscateKey_def Let_def)

lemma Erase_batch:
  "ssKey b = [] \<Longrightarrow> batch (CDBBatch_Erase encK b key) = batch b @ [Delete (encK key)]"
  by (simp add: CDBBatch_Erase_def Let_def)

lemma Write_size:
  "size_estimate (CDBBatch_Write encK encV b key val) =
     (size_estimate b
      + entry_estimate (Put (ssKey b @ encK key)
          (Xor (ssValue b @ encV val) (GetObfuscateKey (parent b))))) mod 2 ^ 64"
  by (simp add: CDBBatch_Write_def Let_def)

lemma Erase_size:
  "size_estimate (CDBBatch_Erase encK b key) =
     (size_estimate b + entry_estimate (Delete (ssKey b @ encK key))) mod 2 ^ 64"
  by (simp add: CDBBatch_Erase_def Let_def)

lemma entry_estimate_Put:
  "entry_estimate (Put k v) =
     framing_overhead (length k) + length k + framing_overhead (length v) + length v - 1"
  by (simp add: framing_overhead_def)

lemma entry_estimate_Delete:
  "entry_estimate (Delete k) = framing_overhead (length k) + length k"
  by (simp add: framing_overhead_def)

lemma call_grows:
  assumes "c \<noteq> Call_Clear"
  shows "\<exists>e. batch (call encK encV b c) = batch b @ [e] \<and>
             size_estimate (call encK encV b c) = (size_estimate b + entry_estimate e) mod 2 ^ 64"
  using assms by (cases c) (simp_all add: CDBBatch_Write_def CDBBatch_Erase_def Let_def)

lemma call_tracks:
  assumes "size_estimate b = batch_estimate (batch b) mod 2 ^ 64"
  shows "size_estimate (call encK encV b c) = batch_estimate (batch (call encK encV b c)) mod 2 ^ 64"
proof (cases "c = Call_Clear")
  case True
  then show ?thesis by (simp add: Clear_def batch_estimate_def)
next
  case False
  then obtain e where e: "batch (call encK encV b c) = batch b @ [e]"
    "size_estimate (call encK encV b c) = (size_estimate b + entry_estimate e) mod 2 ^ 64"
    using call_grows by blast
  show ?thesis
    by (simp add: e assms batch_estimate_snoc mod_add_left_eq)
qed

lemma calls_tracks:
  "size_estimate b = batch_estimate (batch b) mod 2 ^ 64 \<Longrightarrow>
   size_estimate (calls encK encV b cs) = batch_estimate (batch (calls encK encV b cs)) mod 2 ^ 64"
  by (induction cs arbitrary: b) (simp_all add: call_tracks)

lemma reachable_tracks:
  "size_estimate (calls encK encV (CDBBatch_ctor w) cs) =
     batch_estimate (batch (calls encK encV (CDBBatch_ctor w) cs)) mod 2 ^ 64"
  by (rule calls_tracks) (simp add: CDBBatch_ctor_def batch_estimate_def)

lemma calls_batch_mono:
  "Call_Clear \<notin> set cs \<Longrightarrow>
   batch_estimate (batch b) \<le> batch_estimate (batch (calls encK encV b cs))"
proof (induction cs arbitrary: b)
  case Nil
  show ?case by simp
next
  case (Cons c cs)
  from Cons.prems have c: "c \<noteq> Call_Clear" and cs: "Call_Clear \<notin> set cs"
    by auto
  obtain e where "batch (call encK encV b c) = batch b @ [e]"
    using call_grows [OF c] by blast
  then have "batch_estimate (batch b) \<le> batch_estimate (batch (call encK encV b c))"
    by (simp add: batch_estimate_snoc)
  also have "\<dots> \<le> batch_estimate (batch (calls encK encV (call encK encV b c) cs))"
    using cs by (rule Cons.IH)
  finally show ?case by simp
qed

lemma estimates_lower:
  assumes "size_estimate b = batch_estimate (batch b) mod 2 ^ 64"
    and "Call_Clear \<notin> set cs"
    and "batch_estimate (batch (calls encK encV b cs)) < 2 ^ 64"
  shows "\<forall>y \<in> set (estimates encK encV b cs). batch_estimate (batch b) \<le> y"
  using assms
proof (induction cs arbitrary: b)
  case Nil
  then show ?case by (simp add: SizeEstimate_def)
next
  case (Cons c cs)
  from Cons.prems have c: "c \<noteq> Call_Clear" and cs: "Call_Clear \<notin> set cs"
    by auto
  let ?b' = "call encK encV b c"
  have fin: "batch_estimate (batch (calls encK encV ?b' cs)) < 2 ^ 64"
    using Cons.prems(3) by simp
  have tr: "size_estimate ?b' = batch_estimate (batch ?b') mod 2 ^ 64"
    using Cons.prems(1) by (rule call_tracks)
  have tail: "\<forall>y \<in> set (estimates encK encV ?b' cs). batch_estimate (batch ?b') \<le> y"
    using tr cs fin by (rule Cons.IH)
  obtain e where "batch ?b' = batch b @ [e]"
    using call_grows [OF c] by blast
  then have step: "batch_estimate (batch b) \<le> batch_estimate (batch ?b')"
    by (simp add: batch_estimate_snoc)
  have "batch_estimate (batch b) \<le> batch_estimate (batch (calls encK encV b (c # cs)))"
    using Cons.prems(2) by (rule calls_batch_mono)
  then have "batch_estimate (batch b) < 2 ^ 64"
    using Cons.prems(3) by simp
  then have here: "size_estimate b = batch_estimate (batch b)"
    using Cons.prems(1) by simp
  show ?case
    using tail step here by (auto simp: SizeEstimate_def)
qed

lemma estimates_increase:
  assumes "size_estimate b = batch_estimate (batch b) mod 2 ^ 64"
    and "Call_Clear \<notin> set cs"
    and "batch_estimate (batch (calls encK encV b cs)) < 2 ^ 64"
  shows "sorted_wrt (<) (estimates encK encV b cs)"
  using assms
proof (induction cs arbitrary: b)
  case Nil
  show ?case by simp
next
  case (Cons c cs)
  from Cons.prems have c: "c \<noteq> Call_Clear" and cs: "Call_Clear \<notin> set cs"
    by auto
  let ?b' = "call encK encV b c"
  have fin: "batch_estimate (batch (calls encK encV ?b' cs)) < 2 ^ 64"
    using Cons.prems(3) by simp
  have tr: "size_estimate ?b' = batch_estimate (batch ?b') mod 2 ^ 64"
    using Cons.prems(1) by (rule call_tracks)
  have tail: "sorted_wrt (<) (estimates encK encV ?b' cs)"
    using tr cs fin by (rule Cons.IH)
  have lower: "\<forall>y \<in> set (estimates encK encV ?b' cs). batch_estimate (batch ?b') \<le> y"
    using tr cs fin by (rule estimates_lower)
  obtain e where "batch ?b' = batch b @ [e]"
    using call_grows [OF c] by blast
  then have step: "batch_estimate (batch b) < batch_estimate (batch ?b')"
    using entry_estimate_pos [of e] by (simp add: batch_estimate_snoc)
  have "batch_estimate (batch b) \<le> batch_estimate (batch (calls encK encV b (c # cs)))"
    using Cons.prems(2) by (rule calls_batch_mono)
  then have "batch_estimate (batch b) < 2 ^ 64"
    using Cons.prems(3) by simp
  then have here: "size_estimate b = batch_estimate (batch b)"
    using Cons.prems(1) by simp
  have "\<forall>y \<in> set (estimates encK encV ?b' cs). SizeEstimate b < y"
    using lower step here by (auto simp: SizeEstimate_def)
  then show ?case
    using tail by simp
qed

section \<open>The claims\<close>

text \<open>
  Claim C1. Write/read consistency: for every key \<open>key\<close> and value \<open>val\<close>, after a
  successful \<^verbatim>\<open>CDBWrapper::Write(key, val)\<close> (which encodes both, XOR-obfuscates the
  value and commits a batch of one entry), a subsequent \<^verbatim>\<open>CDBWrapper::Read(key, out)\<close>
  returns \<^verbatim>\<open>true\<close> with \<open>out = val\<close>. The codec of the value type is assumed to
  decode what it encoded (the round-trip property of the codec).
\<close>

theorem Write_then_Read:
  assumes roundtrip: "decV (encV val) = Some val"
    and written: "CDBWrapper_Write encK encV w key val fSync = Inr (True, w')"
  shows "Read encK decV w' key = Inr (Some val)"
proof -
  let ?slValue = "Xor (encV val) (obfuscate_key w)"
  have healthy: "fault (pdb w) = None"
    using written
    by (auto simp: CDBWrapper_Write_def WriteBatch_def ldb_Write_def HandleError_def Let_def
        split: option.splits if_splits)
  then have w': "w' = w\<lparr>pdb := (pdb w)\<lparr>table := (table (pdb w))(encK key \<mapsto> ?slValue)\<rparr>\<rparr>"
    using written
    by (simp add: CDBWrapper_Write_def WriteBatch_def ldb_Write_def HandleError_def Let_def
        CDBBatch_Write_def CDBBatch_ctor_def GetObfuscateKey_def)
  have "ldb_Get (pdb w') (encK key) = (OK, ?slValue)"
    using healthy by (simp add: w' ldb_Get_def)
  moreover have "obfuscate_key w' = obfuscate_key w"
    by (simp add: w')
  ultimately show ?thesis
    using roundtrip by (simp add: Read_def Let_def Xor_twice)
qed

text \<open>
  The run for C1: on the empty store with obfuscation key \<open>[90, 195]\<close>, writing the byte
  42 under the byte 1 stores the obfuscated byte 112 under \<open>[1]\<close>, and reading gives 42.
\<close>

theorem Write_then_Read_witness:
  "unser_uint8 (ser_uint8 42) = Some 42 \<and>
   CDBWrapper_Write ser_uint8 ser_uint8 empty_store 1 42 False =
     Inr (True, empty_store\<lparr>pdb := \<lparr>table = [[1] \<mapsto> [112]], fault = None\<rparr>\<rparr>) \<and>
   Read ser_uint8 unser_uint8 (empty_store\<lparr>pdb := \<lparr>table = [[1] \<mapsto> [112]], fault = None\<rparr>\<rparr>) 1 =
     Inr (Some 42)"
proof -
  have roundtrip: "unser_uint8 (ser_uint8 42) = Some 42"
    by (simp add: ser_uint8_def unser_uint8_def)
  have written: "CDBWrapper_Write ser_uint8 ser_uint8 empty_store 1 42 False =
     Inr (True, empty_store\<lparr>pdb := \<lparr>table = [[1] \<mapsto> [112]], fault = None\<rparr>\<rparr>)"
    by (simp add: CDBWrapper_Write_def WriteBatch_def ldb_Write_def HandleError_def Let_def
        CDBBatch_Write_def CDBBatch_ctor_def GetObfuscateKey_def empty_store_def ser_uint8_def
        Xor_def)
  show ?thesis
    using roundtrip written
      Write_then_Read [where decV = unser_uint8 and encV = ser_uint8 and encK = ser_uint8
        and val = 42 and key = 1 and w = empty_store and fSync = False, OF roundtrip written]
    by simp
qed

text \<open>
  Claim C2, as amended. A single \<^verbatim>\<open>CDBBatch::Write(key, val)\<close> on a batch built from the
  constructor by completed calls of the public members increases the size estimate, in \<^verbatim>\<open>size_t\<close>
  arithmetic, by \<open>framing_overhead(key) + key_len + framing_overhead(value) + value_len - 1\<close>,
  where \<open>framing_overhead(x)\<close> is 2 if \<open>len(x) \<le> 127\<close> and 3 otherwise: the source adds
  \<^verbatim>\<open>3 + (slKey.size() > 127) + slKey.size() + (slValue.size() > 127) + slValue.size()\<close>,
  one header byte for the entry and a length prefix of 1 or 2 bytes for each of key and
  value.
\<close>

theorem Write_size_estimate:
  "SizeEstimate (CDBBatch_Write encK encV (calls encK encV (CDBBatch_ctor w) cs) key val) =
     (SizeEstimate (calls encK encV (CDBBatch_ctor w) cs)
      + (framing_overhead (length (encK key)) + length (encK key)
         + framing_overhead (length (encV val)) + length (encV val) - 1)) mod 2 ^ 64"
proof -
  let ?b = "calls encK encV (CDBBatch_ctor w) cs"
  have streams: "ssKey ?b = []" "ssValue ?b = []"
    using reachable_streams [of encK encV w cs] by simp_all
  show ?thesis
    unfolding SizeEstimate_def
    by (simp only: Write_size streams append_Nil entry_estimate_Put length_Xor)
qed

text \<open>
  Claim C2 as it is written fails: for a key and a value of one byte each the claimed
  increase is \<open>2 + 1 + 2 + 1 = 6\<close>, and the estimate of a fresh batch becomes 5.
\<close>

theorem Write_size_claimed_counterexample:
  "SizeEstimate (CDBBatch_Write ser_uint8 ser_uint8 (CDBBatch_ctor empty_store) 1 2) = 5 \<and>
   SizeEstimate (CDBBatch_ctor empty_store)
     + (framing_overhead (length (ser_uint8 1)) + length (ser_uint8 1)
        + framing_overhead (length (ser_uint8 2)) + length (ser_uint8 2)) = 6 \<and>
   SizeEstimate (CDBBatch_Write ser_uint8 ser_uint8 (CDBBatch_ctor empty_store) 1 2) \<noteq>
     SizeEstimate (CDBBatch_ctor empty_store)
       + (framing_overhead (length (ser_uint8 1)) + length (ser_uint8 1)
          + framing_overhead (length (ser_uint8 2)) + length (ser_uint8 2))"
  by (simp add: SizeEstimate_def CDBBatch_Write_def CDBBatch_ctor_def Let_def ser_uint8_def
      framing_overhead_def length_Xor)

text \<open>
  Claim C3, as amended. A single \<^verbatim>\<open>CDBBatch::Erase(key)\<close> on a batch built from the
  constructor by completed calls of the public members increases the size estimate, in \<^verbatim>\<open>size_t\<close>
  arithmetic, by \<open>framing_overhead(key) + key_len\<close>, where \<open>framing_overhead(key)\<close> is 2
  if the serialized key length is at most 127 and 3 otherwise: the source adds
  \<^verbatim>\<open>2 + (slKey.size() > 127) + slKey.size()\<close>, one header byte and a length prefix of
  1 or 2 bytes.
\<close>

theorem Erase_size_estimate:
  "SizeEstimate (CDBBatch_Erase encK (calls encK encV (CDBBatch_ctor w) cs) key) =
     (SizeEstimate (calls encK encV (CDBBatch_ctor w) cs)
      + (framing_overhead (length (encK key)) + length (encK key))) mod 2 ^ 64"
proof -
  let ?b = "calls encK encV (CDBBatch_ctor w) cs"
  have streams: "ssKey ?b = []"
    using reachable_streams [of encK encV w cs] by simp
  show ?thesis
    unfolding SizeEstimate_def
    by (simp only: Erase_size streams append_Nil entry_estimate_Delete)
qed

text \<open>
  Claim C3 as it is written fails: for a key of one byte the claimed increase is
  \<open>2 + 1 + 1 = 4\<close>, and the estimate of a fresh batch becomes 3.
\<close>

theorem Erase_size_claimed_counterexample:
  "SizeEstimate (CDBBatch_Erase ser_uint8 (CDBBatch_ctor empty_store) 1) = 3 \<and>
   SizeEstimate (CDBBatch_ctor empty_store)
     + (framing_overhead (length (ser_uint8 1)) + length (ser_uint8 1) + 1) = 4 \<and>
   SizeEstimate (CDBBatch_Erase ser_uint8 (CDBBatch_ctor empty_store) 1) \<noteq>
     SizeEstimate (CDBBatch_ctor empty_store)
       + (framing_overhead (length (ser_uint8 1)) + length (ser_uint8 1) + 1)"
  by (simp add: SizeEstimate_def CDBBatch_Erase_def CDBBatch_ctor_def Let_def ser_uint8_def
      framing_overhead_def)

text \<open>
  Claim C4. Obfuscation involution: for every byte sequence \<open>v\<close> and every key \<open>k\<close>,
  applying the cyclic XOR twice with the same key gives \<open>v\<close> back, and applying it with
  an all-zero key (of any length \<open>n\<close>) leaves \<open>v\<close> unchanged. Hence the value bytes
  that \<^verbatim>\<open>CDBBatch::Write\<close> obfuscates with \<^verbatim>\<open>GetObfuscateKey(parent)\<close> are recovered
  by the XOR with \<^verbatim>\<open>obfuscate_key\<close> in \<^verbatim>\<open>CDBWrapper::Read\<close>, and
  \<^verbatim>\<open>CDBIterator::GetValue\<close> on an engine iterator positioned at these bytes decodes
  the serialized value.
\<close>

theorem Xor_involution:
  "Xor (Xor v k) k = v \<and>
   Xor v (replicate n 0) = v \<and>
   Xor (Xor (encV val) (GetObfuscateKey w)) (obfuscate_key w) = encV val \<and>
   GetValue decV (\<lambda>i. Xor (encV val) (GetObfuscateKey w)) \<lparr>iter_parent = w, piter = p\<rparr> =
     decV (encV val)"
  by (simp add: Xor_twice Xor_zero_key GetObfuscateKey_def GetValue_def)

text \<open>
  Claim C5. If the engine lookup in \<^verbatim>\<open>CDBWrapper::Read\<close> succeeds but the stored bytes,
  de-obfuscated, fail to deserialize as the requested type, \<^verbatim>\<open>Read\<close> returns
  \<^verbatim>\<open>false\<close> and does not throw: its result is \<open>Inr None\<close>, which is also its result
  on the same store without an entry for the key (not-found).
\<close>

theorem Read_decode_failure:
  assumes hit: "ldb_Get (pdb w) (encK key) = (OK, strValue)"
    and undecodable: "decV (Xor strValue (obfuscate_key w)) = None"
  shows "Read encK decV w key = Inr None \<and>
         Read encK decV (w\<lparr>pdb := (pdb w)\<lparr>table := (table (pdb w))(encK key := None)\<rparr>\<rparr>) key =
           Read encK decV w key"
proof -
  have found: "Read encK decV w key = Inr None"
    using hit undecodable by (simp add: Read_def Let_def)
  have "fault (pdb w) = None"
    using hit by (auto simp: ldb_Get_def split: option.splits)
  then have "Read encK decV (w\<lparr>pdb := (pdb w)\<lparr>table := (table (pdb w))(encK key := None)\<rparr>\<rparr>) key =
      Inr None"
    by (simp add: Read_def ldb_Get_def Let_def)
  with found show ?thesis by simp
qed

text \<open>
  The run for C5: the engine holds the empty byte sequence under \<open>[7]\<close>, which is no
  serialized byte.
\<close>

theorem Read_decode_failure_witness:
  "ldb_Get (pdb corrupt_store) (ser_uint8 7) = (OK, []) \<and>
   unser_uint8 (Xor [] (obfuscate_key corrupt_store)) = None \<and>
   Read ser_uint8 unser_uint8 corrupt_store 7 = Inr None"
proof -
  have hit: "ldb_Get (pdb corrupt_store) (ser_uint8 7) = (OK, [])"
    by (simp add: ldb_Get_def corrupt_store_def ser_uint8_def)
  have undecodable: "unser_uint8 (Xor [] (obfuscate_key corrupt_store)) = None"
    by (simp add: unser_uint8_def Xor_def corrupt_store_def)
  show ?thesis
    using hit undecodable
      Read_decode_failure [where w = corrupt_store and encK = ser_uint8 and key = 7
        and decV = unser_uint8, OF hit undecodable]
    by simp
qed

text \<open>
  Claim C6. The XOR obfuscation is applied to serialized value bytes only, never to
  serialized key bytes: in batch \<^verbatim>\<open>Write\<close> and \<^verbatim>\<open>Erase\<close>, in \<^verbatim>\<open>Read\<close>,
  \<^verbatim>\<open>Exists\<close>, iterator \<^verbatim>\<open>Seek\<close>, \<^verbatim>\<open>EstimateSize\<close> and \<^verbatim>\<open>CompactRange\<close> the
  key bytes handed to the engine are exactly the codec's encoding of the typed key. The
  batch is any batch built from the constructor by completed calls of the public members; the engine's
  \<^verbatim>\<open>Seek\<close>, \<^verbatim>\<open>GetApproximateSizes\<close> and \<^verbatim>\<open>CompactRange\<close> are arbitrary.
\<close>

theorem keys_not_obfuscated:
  "batch (CDBBatch_Write encK encV (calls encK encV (CDBBatch_ctor w) cs) key val) =
     batch (calls encK encV (CDBBatch_ctor w) cs)
       @ [Put (encK key) (Xor (encV val) (obfuscate_key w))] \<and>
   batch (CDBBatch_Erase encK (calls encK encV (CDBBatch_ctor w) cs) key) =
     batch (calls encK encV (CDBBatch_ctor w) cs) @ [Delete (encK key)] \<and>
   Read encK decV w key =
     (case ldb_Get (pdb w) (encK key) of
        (status, strValue) \<Rightarrow>
          if status = OK then Inr (decV (Xor strValue (obfuscate_key w)))
          else if status = NotFound then Inr None
          else Inl (dbwrapper_error status)) \<and>
   Exists encK w key =
     (case ldb_Get (pdb w) (encK key) of
        (status, strValue) \<Rightarrow>
          if status = OK then Inr True
          else if status = NotFound then Inr False
          else Inl (dbwrapper_error status)) \<and>
   Seek encK ldb_Seek it key = it\<lparr>piter := ldb_Seek (piter it) (encK key)\<rparr> \<and>
   EstimateSize encK ldb_GetApproximateSizes w key_begin key_end =
     ldb_GetApproximateSizes (pdb w) (encK key_begin, encK key_end) \<and>
   CompactRange encK ldb_CompactRange w key_begin key_end =
     w\<lparr>pdb := ldb_CompactRange (pdb w) (encK key_begin) (encK key_end)\<rparr>"
proof -
  let ?b = "calls encK encV (CDBBatch_ctor w) cs"
  have streams: "ssKey ?b = []" "ssValue ?b = []"
    using reachable_streams [of encK encV w cs] by simp_all
  have put: "batch (CDBBatch_Write encK encV ?b key val) =
      batch ?b @ [Put (encK key) (Xor (encV val) (obfuscate_key w))]"
    using Write_batch [OF streams, of encK encV key val]
    by (simp add: reachable_parent)
  have del: "batch (CDBBatch_Erase encK ?b key) = batch ?b @ [Delete (encK key)]"
    using streams(1) by (rule Erase_batch)
  have read: "Read encK decV w key =
     (case ldb_Get (pdb w) (encK key) of
        (status, strValue) \<Rightarrow>
          if status = OK then Inr (decV (Xor strValue (obfuscate_key w)))
          else if status = NotFound then Inr None
          else Inl (dbwrapper_error status))"
    by (simp add: Read_def HandleError_def Let_def split: prod.splits option.splits)
  have exists: "Exists encK w key =
     (case ldb_Get (pdb w) (encK key) of
        (status, strValue) \<Rightarrow>
          if status = OK then Inr True
          else if status = NotFound then Inr False
          else Inl (dbwrapper_error status))"
    by (simp add: Exists_def HandleError_def Let_def split: prod.splits)
  have seek: "Seek encK ldb_Seek it key = it\<lparr>piter := ldb_Seek (piter it) (encK key)\<rparr>"
    by (simp add: Seek_def)
  have estimate: "EstimateSize encK ldb_GetApproximateSizes w key_begin key_end =
      ldb_GetApproximateSizes (pdb w) (encK key_begin, encK key_end)"
    by (simp add: EstimateSize_def)
  have compact: "CompactRange encK ldb_CompactRange w key_begin key_end =
      w\<lparr>pdb := ldb_CompactRange (pdb w) (encK key_begin) (encK key_end)\<rparr>"
    by (simp add: CompactRange_def)
  from put del read exists seek estimate compact show ?thesis
    by (intro conjI)
qed

text \<open>
  Claim C7. Batch size monotonicity: over every sequence \<open>cs\<close> of \<^verbatim>\<open>CDBBatch::Write\<close>
  and \<^verbatim>\<open>CDBBatch::Erase\<close> calls with no \<^verbatim>\<open>Clear\<close> among them, on a batch built from
  the constructor by any earlier calls \<open>pre\<close>, the readings of \<^verbatim>\<open>SizeEstimate()\<close>
  before the first call and after each call are strictly increasing from each one to
  every later one; so the estimate is non-decreasing over the sequence and strictly
  greater after each single call. The estimate is a \<^verbatim>\<open>size_t\<close>: the statement is for
  batches whose accumulated entries are counted with fewer than \<open>2 ^ 64\<close> bytes, as are
  all entries that the engine batch holds in memory.
\<close>

theorem SizeEstimate_strictly_increases:
  assumes no_clear: "Call_Clear \<notin> set cs"
    and fits: "batch_estimate (batch (calls encK encV (calls encK encV (CDBBatch_ctor w) pre) cs))
                 < 2 ^ 64"
  shows "sorted_wrt (<) (estimates encK encV (calls encK encV (CDBBatch_ctor w) pre) cs)"
  using reachable_tracks no_clear fits by (rule estimates_increase)

text \<open>
  The run for C7: after a write and a \<^verbatim>\<open>Clear\<close>, a write, an erase and another write
  of single bytes give the readings 0, 5, 8 and 13.
\<close>

theorem SizeEstimate_strictly_increases_witness:
  "Call_Clear \<notin> set [Call_Write 1 2, Call_Erase 3, Call_Write 4 5] \<and>
   batch_estimate (batch (calls ser_uint8 ser_uint8
       (calls ser_uint8 ser_uint8 (CDBBatch_ctor empty_store) [Call_Write 8 9, Call_Clear])
       [Call_Write 1 2, Call_Erase 3, Call_Write 4 5])) < 2 ^ 64 \<and>
   estimates ser_uint8 ser_uint8
       (calls ser_uint8 ser_uint8 (CDBBatch_ctor empty_store) [Call_Write 8 9, Call_Clear])
       [Call_Write 1 2, Call_Erase 3, Call_Write 4 5] = [0, 5, 8, 13] \<and>
   sorted_wrt (<) (estimates ser_uint8 ser_uint8
       (calls ser_uint8 ser_uint8 (CDBBatch_ctor empty_store) [Call_Write 8 9, Call_Clear])
       [Call_Write 1 2, Call_Erase 3, Call_Write 4 5])"
proof -
  have no_clear: "Call_Clear \<notin> set [Call_Write (1::8 word) (2::8 word), Call_Erase 3, Call_Write 4 5]"
    by simp
  have fits: "batch_estimate (batch (calls ser_uint8 ser_uint8
       (calls ser_uint8 ser_uint8 (CDBBatch_ctor empty_store) [Call_Write 8 9, Call_Clear])
       [Call_Write 1 2, Call_Erase 3, Call_Write 4 5])) < 2 ^ 64"
    by (simp add: batch_estimate_def CDBBatch_Write_def CDBBatch_Erase_def Clear_def
        CDBBatch_ctor_def ser_uint8_def Let_def length_Xor)
  have readings: "estimates ser_uint8 ser_uint8
       (calls ser_uint8 ser_uint8 (CDBBatch_ctor empty_store) [Call_Write 8 9, Call_Clear])
       [Call_Write 1 2, Call_Erase 3, Call_Write 4 5] = [0, 5, 8, 13]"
    by (simp add: SizeEstimate_def CDBBatch_Write_def CDBBatch_Erase_def Clear_def
        CDBBatch_ctor_def ser_uint8_def Let_def length_Xor)
  show ?thesis
    using no_clear fits readings
      SizeEstimate_strictly_increases [where encK = ser_uint8 and encV = ser_uint8
        and w = empty_store and pre = "[Call_Write 8 9, Call_Clear]", OF no_clear fits]
    by simp
qed

text \<open>
  Claim C8. For every batch in any state, \<^verbatim>\<open>CDBBatch::Clear()\<close> removes all accumulated
  entries from the engine batch and makes \<^verbatim>\<open>SizeEstimate()\<close> return 0.
\<close>

theorem Clear_resets:
  "batch (Clear b) = [] \<and> SizeEstimate (Clear b) = 0"
  by (simp add: Clear_def SizeEstimate_def)

text \<open>
  Claim C9. \<^verbatim>\<open>Exists\<close> and \<^verbatim>\<open>Read\<close> can disagree: if the engine holds bytes for the
  key that, de-obfuscated, do not deserialize as the value type, \<^verbatim>\<open>Exists\<close> returns
  \<^verbatim>\<open>true\<close> (it never decodes the value) while \<^verbatim>\<open>Read\<close> returns \<^verbatim>\<open>false\<close>.
\<close>

theorem Exists_but_unreadable:
  assumes hit: "ldb_Get (pdb w) (encK key) = (OK, strValue)"
    and undecodable: "decV (Xor strValue (obfuscate_key w)) = None"
  shows "Exists encK w key = Inr True \<and> Read encK decV w key = Inr None"
  using hit undecodable by (simp add: Exists_def Read_def Let_def)

text \<open>
  The run for C9, a store and a key where the two disagree: the engine holds the empty
  byte sequence under \<open>[7]\<close>.
\<close>

theorem Exists_but_unreadable_witness:
  "ldb_Get (pdb corrupt_store) (ser_uint8 7) = (OK, []) \<and>
   unser_uint8 (Xor [] (obfuscate_key corrupt_store)) = None \<and>
   Exists ser_uint8 corrupt_store 7 = Inr True \<and>
   Read ser_uint8 unser_uint8 corrupt_store 7 = Inr None"
proof -
  have hit: "ldb_Get (pdb corrupt_store) (ser_uint8 7) = (OK, [])"
    by (simp add: ldb_Get_def corrupt_store_def ser_uint8_def)
  have undecodable: "unser_uint8 (Xor [] (obfuscate_key corrupt_store)) = None"
    by (simp add: unser_uint8_def Xor_def corrupt_store_def)
  show ?thesis
    using hit undecodable
      Exists_but_unreadable [where w = corrupt_store and encK = ser_uint8 and key = 7
        and decV = unser_uint8, OF hit undecodable]
    by simp
qed

text \<open>
  Claim C10. The claim: after every completed \<^verbatim>\<open>CDBBatch::Write\<close> or
  \<^verbatim>\<open>CDBBatch::Erase\<close> call the scratch streams \<^verbatim>\<open>ssKey\<close> and \<^verbatim>\<open>ssValue\<close> are
  empty again, so that the bytes a call appends to the engine batch never include bytes
  left over from earlier operations on the same batch. The members clear the streams
  only in their last statements, so the code does not keep this after an operation that
  a throwing serialization cut short. On a fresh batch, \<^verbatim>\<open>Write(1, 9)\<close> whose value
  serializer writes the byte 9 and throws leaves \<open>ssKey = [1]\<close> and \<open>ssValue = [9]\<close>.
  The following \<^verbatim>\<open>Erase(3)\<close> completes, appends \<open>Delete [1, 3]\<close> where the encoding
  of its key is \<open>[3]\<close>, and returns with \<open>ssValue = [9]\<close>.
\<close>

theorem Erase_after_aborted_Write:
  "CDBBatch_Write_ser ser_uint8_returns ser_byte_then_throw (CDBBatch_ctor empty_store) 1 9 =
     Throws \<lparr>parent = empty_store, batch = [], ssKey = [1], ssValue = [9], size_estimate = 0\<rparr> \<and>
   CDBBatch_Erase_ser ser_uint8_returns
       \<lparr>parent = empty_store, batch = [], ssKey = [1], ssValue = [9], size_estimate = 0\<rparr> 3 =
     Returns \<lparr>parent = empty_store, batch = [Delete [1, 3]], ssKey = [], ssValue = [9],
       size_estimate = 4\<rparr> \<and>
   ser_uint8 3 = [3]"
  by (simp add: CDBBatch_Write_ser_def CDBBatch_Erase_ser_def CDBBatch_ctor_def
      ser_uint8_returns_def ser_byte_then_throw_def ser_uint8_def Let_def)

end
